theory Spec2Isabelle
  imports Complex_Main
begin

section \<open>JavaScript values used by the maze engine\<close>

text \<open>
  The engine is two JavaScript classes, \<open>Level\<close> (the tile grid) and \<open>Player\<close> (the
  avatar), driven by the orchestrator functions of the sketch. The embedding keeps:
  \<^item> a grid as a list of rows of integer tile codes (0 floor, 1 wall, 2 start, 3 goal,
    4 key, 5 gate);
  \<^item> a value that may be \<open>null\<close> or \<open>undefined\<close> as an \<open>option\<close> (\<open>None\<close>);
  \<^item> the only exception the code can raise, reading a property of \<open>undefined\<close>, as
    \<open>Inl TypeError\<close> of a result type;
  \<^item> a cell index, a direction and the key count as integers;
  \<^item> the other numbers of the player (tile size, pixel position, speed, frame time) as
    values of a type parameter, with the arithmetic of the runtime on them as a parameter
    of the functions that compute with them.
\<close>

datatype js_error = TypeError

text \<open>
  \<open>xs[k]\<close> on an array: the element when \<open>k\<close> is an index of the array, \<open>undefined\<close>
  for a negative or too large number and for \<open>null\<close> (the property named "null").
\<close>

definition js_index :: "'a list \<Rightarrow> int option \<Rightarrow> 'a option" where
  "js_index xs k =
     (case k of
        None \<Rightarrow> None
      | Some i \<Rightarrow> if 0 \<le> i \<and> i < int (length xs) then Some (xs ! nat i) else None)"

text \<open>\<open>null\<close> used as a number is 0.\<close>

definition to_number :: "int option \<Rightarrow> int" where
  "to_number k = (case k of None \<Rightarrow> 0 | Some i \<Rightarrow> i)"

section \<open>Level\<close>

record level =
  grid :: "int list list"
  lts :: real
  start :: "(int \<times> int) option"

definition rows :: "level \<Rightarrow> int" where
  "rows L = int (length (grid L))"

text \<open>\<open>this.grid[0].length\<close>: raises on a grid with no row.\<close>

definition cols :: "level \<Rightarrow> js_error + int" where
  "cols L = (case grid L of [] \<Rightarrow> Inl TypeError | row0 # _ \<Rightarrow> Inr (int (length row0)))"

text \<open>The conjunction is evaluated left to right and stops at the first false operand.\<close>

definition inBounds :: "level \<Rightarrow> int \<Rightarrow> int \<Rightarrow> js_error + bool" where
  "inBounds L i j =
     (if \<not> 0 \<le> i then Inr False
      else if \<not> 0 \<le> j then Inr False
      else if \<not> i < rows L then Inr False
      else case cols L of Inl e \<Rightarrow> Inl e | Inr n \<Rightarrow> Inr (j < n))"

text \<open>
  \<open>this.grid[r][c]\<close>: a missing row is \<open>undefined\<close>, and reading its property raises; a
  missing column of an existing row is \<open>undefined\<close>.
\<close>

definition tileAt :: "level \<Rightarrow> int option \<Rightarrow> int option \<Rightarrow> js_error + int option" where
  "tileAt L i j =
     (case js_index (grid L) i of
        None \<Rightarrow> Inl TypeError
      | Some row \<Rightarrow> Inr (js_index row j))"

definition isWall :: "level \<Rightarrow> int option \<Rightarrow> int option \<Rightarrow> js_error + bool" where
  "isWall L i j = (case tileAt L i j of Inl e \<Rightarrow> Inl e | Inr v \<Rightarrow> Inr (v = Some 1))"

definition isGoal :: "level \<Rightarrow> int option \<Rightarrow> int option \<Rightarrow> js_error + bool" where
  "isGoal L i j = (case tileAt L i j of Inl e \<Rightarrow> Inl e | Inr v \<Rightarrow> Inr (v = Some 3))"

definition isKey :: "level \<Rightarrow> int option \<Rightarrow> int option \<Rightarrow> js_error + bool" where
  "isKey L i j = (case tileAt L i j of Inl e \<Rightarrow> Inl e | Inr v \<Rightarrow> Inr (v = Some 4))"

definition isGate :: "level \<Rightarrow> int option \<Rightarrow> int option \<Rightarrow> js_error + bool" where
  "isGate L i j = (case tileAt L i j of Inl e \<Rightarrow> Inl e | Inr v \<Rightarrow> Inr (v = Some 5))"

text \<open>
  \<open>level.grid[r][c] = 0\<close>. Every such assignment in the code follows a read of the same
  cell that returned a tile code, so the cell exists; on a cell that does not exist the
  list update leaves the grid as it is.
\<close>

definition set_tile :: "level \<Rightarrow> int \<Rightarrow> int \<Rightarrow> int \<Rightarrow> level" where
  "set_tile L i j v = L\<lparr>grid := (grid L)[nat i := (grid L ! nat i)[nat j := v]]\<rparr>"

text \<open>
  \<open>findStart\<close>: the inner loop over the columns \<open>c < this.cols()\<close> of row \<open>r\<close>, from
  column \<open>j\<close> on, and the outer loop over the rows from row \<open>i\<close> on.
\<close>

function find_in_row :: "level \<Rightarrow> nat \<Rightarrow> nat \<Rightarrow> js_error + (int \<times> int) option" where
  "find_in_row L i j =
     (case cols L of
        Inl e \<Rightarrow> Inl e
      | Inr n \<Rightarrow>
          if int j < n then
            (case js_index (grid L) (Some (int i)) of
               None \<Rightarrow> Inl TypeError
             | Some row \<Rightarrow>
                 if js_index row (Some (int j)) = Some 2 then Inr (Some (int i, int j))
                 else find_in_row L i (Suc j))
          else Inr None)"
  by pat_completeness auto
termination
  by (relation "measure (\<lambda>(L, i, j). length (hd (grid L)) - j)")
     (auto simp: cols_def split: list.splits)

function find_from_row :: "level \<Rightarrow> nat \<Rightarrow> js_error + (int \<times> int) option" where
  "find_from_row L i =
     (if int i < rows L then
        (case find_in_row L i 0 of
           Inl e \<Rightarrow> Inl e
         | Inr (Some s) \<Rightarrow> Inr (Some s)
         | Inr None \<Rightarrow> find_from_row L (Suc i))
      else Inr None)"
  by pat_completeness auto
termination
  by (relation "measure (\<lambda>(L, i). length (grid L) - i)") (auto simp: rows_def)

definition findStart :: "level \<Rightarrow> js_error + (int \<times> int) option" where
  "findStart L = find_from_row L 0"

text \<open>The constructor: store the grid, record the start, set the recorded start to floor.\<close>

definition Level_new :: "int list list \<Rightarrow> real \<Rightarrow> js_error + level" where
  "Level_new g tileSize =
     (let L0 = \<lparr>grid = g, lts = tileSize, start = None\<rparr> in
      case findStart L0 of
        Inl e \<Rightarrow> Inl e
      | Inr s \<Rightarrow>
          (let L1 = L0\<lparr>start := s\<rparr> in
           case s of
             None \<Rightarrow> Inr L1
           | Some (sr, sc) \<Rightarrow> Inr (set_tile L1 sr sc 0)))"

section \<open>Numbers\<close>

text \<open>
  Tile size, pixel position, speed and frame time are JavaScript numbers, that is IEEE
  doubles, and the code computes on them with rounding. Here they are the values of a
  type \<open>'n\<close>, and the operations of the runtime on numbers are the fields of a record
  that the computing functions take as their first argument. Nothing is assumed of these
  operations, so that what is proved holds for whatever they return, rounding, infinities
  and \<open>NaN\<close> included. \<open>n_of_int\<close> is the number of an integer (a numeric literal, or a
  cell index used as a factor), \<open>n_ge\<close> is \<open>>=\<close> and \<open>n_eq\<close> is \<open>===\<close>.
\<close>

record 'n arith =
  n_of_int :: "int \<Rightarrow> 'n"
  n_add :: "'n \<Rightarrow> 'n \<Rightarrow> 'n"
  n_sub :: "'n \<Rightarrow> 'n \<Rightarrow> 'n"
  n_mul :: "'n \<Rightarrow> 'n \<Rightarrow> 'n"
  n_div :: "'n \<Rightarrow> 'n \<Rightarrow> 'n"
  n_sqrt :: "'n \<Rightarrow> 'n"
  n_ge :: "'n \<Rightarrow> 'n \<Rightarrow> bool"
  n_eq :: "'n \<Rightarrow> 'n \<Rightarrow> bool"

section \<open>Player\<close>

text \<open>
  The fields of the class. \<open>r\<close>, \<open>c\<close>, \<open>targetR\<close> and \<open>targetC\<close> hold a number or
  \<open>null\<close>: the constructor sets the target to \<open>null\<close>, and \<open>finishMove\<close> copies the
  target into the cell.
\<close>

record 'n player =
  ts :: 'n
  r :: "int option"
  c :: "int option"
  movedAt :: 'n
  moveDelay :: 'n
  keysCollected :: int
  moving :: bool
  targetR :: "int option"
  targetC :: "int option"
  px :: 'n
  py :: 'n
  speed :: 'n
  arrivedThisFrame :: bool
  dirR :: int
  dirC :: int

definition Player_new :: "'n arith \<Rightarrow> 'n \<Rightarrow> 'n player" where
  "Player_new fp tileSize =
     \<lparr>ts = tileSize, r = Some 0, c = Some 0, movedAt = n_of_int fp 0,
      moveDelay = n_of_int fp 90, keysCollected = 0, moving = False, targetR = None,
      targetC = None, px = n_of_int fp 0, py = n_of_int fp 0, speed = n_of_int fp 130,
      arrivedThisFrame = False, dirR = 0, dirC = 0\<rparr>"

definition setCell :: "'n arith \<Rightarrow> int \<Rightarrow> int \<Rightarrow> 'n player \<Rightarrow> 'n player" where
  "setCell fp i j p =
     (let p1 = p\<lparr>r := Some i, c := Some j\<rparr>;
          p2 = p1\<lparr>px := n_add fp (n_mul fp (n_of_int fp (to_number (c p1))) (ts p1))
                              (n_div fp (ts p1) (n_of_int fp 2))\<rparr>;
          p3 = p2\<lparr>py := n_add fp (n_mul fp (n_of_int fp (to_number (r p2))) (ts p2))
                              (n_div fp (ts p2) (n_of_int fp 2))\<rparr>
      in p3\<lparr>arrivedThisFrame := False\<rparr>)"

definition resetKey :: "'n player \<Rightarrow> 'n player" where
  "resetKey p = p\<lparr>keysCollected := 0\<rparr>"

definition canMoveTo :: "level \<Rightarrow> 'n player \<Rightarrow> int \<Rightarrow> int \<Rightarrow> js_error + bool" where
  "canMoveTo L p nr nc =
     (case inBounds L nr nc of
        Inl e \<Rightarrow> Inl e
      | Inr b \<Rightarrow>
          if \<not> b then Inr False
          else (case isWall L (Some nr) (Some nc) of
                  Inl e \<Rightarrow> Inl e
                | Inr w \<Rightarrow>
                    if w then Inr False
                    else (case isGate L (Some nr) (Some nc) of
                            Inl e \<Rightarrow> Inl e
                          | Inr g \<Rightarrow>
                              if g \<and> keysCollected p = 0 then Inr False else Inr True)))"

text \<open>\<open>tryMove\<close> returns its boolean together with the updated player.\<close>

definition tryMove ::
  "level \<Rightarrow> int \<Rightarrow> int \<Rightarrow> 'n player \<Rightarrow> js_error + (bool \<times> 'n player)" where
  "tryMove L dr dc p =
     (let p1 = p\<lparr>dirR := dr, dirC := dc\<rparr> in
      if moving p1 then Inr (True, p1)
      else
        (let nr = to_number (r p1) + dr;
             nc = to_number (c p1) + dc
         in case canMoveTo L p1 nr nc of
              Inl e \<Rightarrow> Inl e
            | Inr ok \<Rightarrow>
                if \<not> ok then Inr (False, p1)
                else Inr (True, p1\<lparr>targetR := Some nr, targetC := Some nc, moving := True\<rparr>)))"

definition tryContinue :: "level \<Rightarrow> 'n player \<Rightarrow> js_error + (bool \<times> 'n player)" where
  "tryContinue L p =
     (if moving p then Inr (True, p)
      else if dirR p = 0 \<and> dirC p = 0 then Inr (False, p)
      else
        (let nr = to_number (r p) + dirR p;
             nc = to_number (c p) + dirC p
         in case canMoveTo L p nr nc of
              Inl e \<Rightarrow> Inl e
            | Inr ok \<Rightarrow>
                if \<not> ok then Inr (False, p)
                else Inr (True, p\<lparr>targetR := Some nr, targetC := Some nc, moving := True\<rparr>)))"

definition finishMove :: "'n player \<Rightarrow> 'n player" where
  "finishMove p = p\<lparr>r := targetR p, c := targetC p, moving := False, arrivedThisFrame := True\<rparr>"

text \<open>
  \<open>update\<close>, with the frame time \<open>deltaTime\<close> (milliseconds, a global of the drawing
  library) as an argument.
\<close>

definition update :: "'n arith \<Rightarrow> 'n \<Rightarrow> 'n player \<Rightarrow> 'n player" where
  "update fp deltaTime p =
     (if \<not> moving p then p
      else
        (let targetPx = n_add fp (n_mul fp (n_of_int fp (to_number (targetC p))) (ts p))
                                 (n_div fp (ts p) (n_of_int fp 2));
             targetPy = n_add fp (n_mul fp (n_of_int fp (to_number (targetR p))) (ts p))
                                 (n_div fp (ts p) (n_of_int fp 2));
             dx = n_sub fp targetPx (px p);
             dy = n_sub fp targetPy (py p);
             dist = n_sqrt fp (n_add fp (n_mul fp dx dx) (n_mul fp dy dy))
         in if n_eq fp dist (n_of_int fp 0) then finishMove p
            else
              (let step = n_mul fp (speed p) (n_div fp deltaTime (n_of_int fp 1000))
               in if n_ge fp step dist then finishMove (p\<lparr>px := targetPx, py := targetPy\<rparr>)
                  else p\<lparr>px := n_add fp (px p) (n_mul fp (n_div fp dx dist) step),
                         py := n_add fp (py p) (n_mul fp (n_div fp dy dist) step)\<rparr>)))"

text \<open>
  \<open>handleArrival\<close> changes the level and the player; it returns both. A cell index that
  is read as a number here was found by the preceding \<open>isKey\<close> or \<open>isGate\<close> to hold a
  tile, so it is a number.
\<close>

definition handleArrival :: "level \<Rightarrow> 'n player \<Rightarrow> js_error + (level \<times> 'n player)" where
  "handleArrival L p =
     (case isKey L (r p) (c p) of
        Inl e \<Rightarrow> Inl e
      | Inr k \<Rightarrow>
          (let (L1, p1) =
                 (if k then
                    (let q = p\<lparr>keysCollected := keysCollected p + 1\<rparr>
                     in (set_tile L (to_number (r q)) (to_number (c q)) 0, q))
                  else (L, p))
           in case isGate L1 (r p1) (c p1) of
                Inl e \<Rightarrow> Inl e
              | Inr g \<Rightarrow>
                  (let (L2, p2) =
                         (if g then
                            (let q = p1\<lparr>keysCollected := max 0 (keysCollected p1 - 1)\<rparr>
                             in (set_tile L1 (to_number (r q)) (to_number (c q)) 0, q))
                          else (L1, p1))
                   in Inr (L2, p2\<lparr>arrivedThisFrame := False\<rparr>))))"

section \<open>Orchestration\<close>

text \<open>
  \<open>loadLevel\<close>, as far as it touches the player: reset the keys, place the player on the
  level's start (or on cell (1, 1) when the level has none), reset the movement state.
\<close>

definition loadLevel :: "'n arith \<Rightarrow> level \<Rightarrow> 'n player \<Rightarrow> 'n player" where
  "loadLevel fp L p =
     (let p1 = resetKey p;
          p2 = (case start L of
                  Some (sr, sc) \<Rightarrow> setCell fp sr sc p1
                | None \<Rightarrow> setCell fp 1 1 p1)
      in p2\<lparr>moving := False, dirR := 0, dirC := 0, arrivedThisFrame := False\<rparr>)"

text \<open>
  The calls the orchestrator makes on the player, each with the level it passes, and a
  run of such calls from a state. A call that raises ends the run with the error.
\<close>

datatype 'n call =
    SetCell int int
  | ResetKey
  | LoadLevel level
  | TryMove level int int
  | TryContinue level
  | Update 'n
  | HandleArrival level

fun do_call :: "'n arith \<Rightarrow> 'n call \<Rightarrow> 'n player \<Rightarrow> js_error + 'n player" where
  "do_call fp (SetCell i j) p = Inr (setCell fp i j p)"
| "do_call fp ResetKey p = Inr (resetKey p)"
| "do_call fp (LoadLevel L) p = Inr (loadLevel fp L p)"
| "do_call fp (TryMove L dr dc) p =
     (case tryMove L dr dc p of Inl e \<Rightarrow> Inl e | Inr (b, p') \<Rightarrow> Inr p')"
| "do_call fp (TryContinue L) p =
     (case tryContinue L p of Inl e \<Rightarrow> Inl e | Inr (b, p') \<Rightarrow> Inr p')"
| "do_call fp (Update dt) p = Inr (update fp dt p)"
| "do_call fp (HandleArrival L) p =
     (case handleArrival L p of Inl e \<Rightarrow> Inl e | Inr (L', p') \<Rightarrow> Inr p')"

fun run :: "'n arith \<Rightarrow> 'n call list \<Rightarrow> 'n player \<Rightarrow> js_error + 'n player" where
  "run fp [] p = Inr p"
| "run fp (x # xs) p = (case do_call fp x p of Inl e \<Rightarrow> Inl e | Inr p' \<Rightarrow> run fp xs p')"

section \<open>Notions of the specification\<close>

text \<open>
  The specification speaks of rectangular matrices, of the first Start cell in row-major
  order and of well-formed level data. These follow its words, not the code.
\<close>

definition rectangular :: "int list list \<Rightarrow> bool" where
  "rectangular g = (\<forall>row \<in> set g. length row = length (hd g))"

text \<open>The cells holding the Start code 2, listed row by row, each row left to right.\<close>

definition start_cells :: "int list list \<Rightarrow> (int \<times> int) list" where
  "start_cells g =
     concat (map (\<lambda>i. map (\<lambda>j. (int i, int j)) (filter (\<lambda>j. g ! i ! j = 2) [0..<length (g ! i)]))
                 [0..<length g])"


text \<open>
  Well-formed level data: a rectangular matrix, every code one of the six tile codes, at
  most one Start.
\<close>

definition valid_level_data :: "int list list \<Rightarrow> bool" where
  "valid_level_data g =
     (rectangular g \<and> (\<forall>row \<in> set g. \<forall>v \<in> set row. v \<in> {0, 1, 2, 3, 4, 5})
      \<and> length (start_cells g) \<le> 1)"

text \<open>
  What the loops of \<open>findStart\<close> visit: in row \<open>i\<close>, the columns from \<open>j\<close> up to the
  bound \<open>n\<close> that exist in the row and hold the code 2.
\<close>

definition row_hits :: "int list list \<Rightarrow> nat \<Rightarrow> nat \<Rightarrow> nat \<Rightarrow> (int \<times> int) list" where
  "row_hits g i j n =
     map (\<lambda>j. (int i, int j)) (filter (\<lambda>j. j < length (g ! i) \<and> g ! i ! j = 2) [j..<n])"

definition first_of :: "'a list \<Rightarrow> 'a option" where
  "first_of xs = (case xs of [] \<Rightarrow> None | x # _ \<Rightarrow> Some x)"

section \<open>The quantities of a frame\<close>

text \<open>
  What \<open>update\<close> computes in local constants: the pixel centre of the target cell, the
  distance left to it, and the step of one frame.
\<close>

definition targetPx :: "'n arith \<Rightarrow> 'n player \<Rightarrow> 'n" where
  "targetPx fp p =
     n_add fp (n_mul fp (n_of_int fp (to_number (targetC p))) (ts p))
              (n_div fp (ts p) (n_of_int fp 2))"

definition targetPy :: "'n arith \<Rightarrow> 'n player \<Rightarrow> 'n" where
  "targetPy fp p =
     n_add fp (n_mul fp (n_of_int fp (to_number (targetR p))) (ts p))
              (n_div fp (ts p) (n_of_int fp 2))"

definition remaining :: "'n arith \<Rightarrow> 'n player \<Rightarrow> 'n" where
  "remaining fp p =
     n_sqrt fp (n_add fp (n_mul fp (n_sub fp (targetPx fp p) (px p)) (n_sub fp (targetPx fp p) (px p)))
                        (n_mul fp (n_sub fp (targetPy fp p) (py p)) (n_sub fp (targetPy fp p) (py p))))"

definition step_size :: "'n arith \<Rightarrow> 'n \<Rightarrow> 'n player \<Rightarrow> 'n" where
  "step_size fp deltaTime p = n_mul fp (speed p) (n_div fp deltaTime (n_of_int fp 1000))"

section \<open>Examples\<close>

text \<open>
  For the examples the numbers are real numbers and the operations are the exact ones.
  A double operation returns the exact result whenever that is a double; the examples
  compute only with integers and dyadic fractions far below \<open>2^53\<close>, where every result
  is one.
\<close>

definition exact_arith :: "real arith" where
  "exact_arith =
     \<lparr>n_of_int = real_of_int, n_add = (+), n_sub = (-), n_mul = (*), n_div = (/),
      n_sqrt = sqrt, n_ge = (\<ge>), n_eq = (=)\<rparr>"

text \<open>
  A player of tile size 32 placed on cell (0, 0), and the same player in transit to cell
  (0, 1) after an accepted move to the right.
\<close>

definition example_idle :: "real player" where
  "example_idle =
     \<lparr>ts = 32, r = Some 0, c = Some 0, movedAt = 0, moveDelay = 90, keysCollected = 0,
      moving = False, targetR = None, targetC = None, px = 16, py = 16, speed = 130,
      arrivedThisFrame = False, dirR = 0, dirC = 0\<rparr>"

definition example_transit :: "real player" where
  "example_transit =
     example_idle\<lparr>dirR := 0, dirC := 1, targetR := Some 0, targetC := Some 1, moving := True\<rparr>"

section \<open>The grid queries\<close>

declare find_in_row.simps [simp del] find_from_row.simps [simp del]

lemma inBounds_total: "\<exists>b. inBounds L i j = Inr b"
  by (auto simp: inBounds_def cols_def rows_def split: list.splits)

lemma inBounds_True:
  "inBounds L i j = Inr True \<longleftrightarrow>
     0 \<le> i \<and> 0 \<le> j \<and> i < int (length (grid L)) \<and> j < int (length (hd (grid L)))"
  by (auto simp: inBounds_def cols_def rows_def split: list.splits)

lemma inBounds_False:
  "inBounds L i j = Inr False \<longleftrightarrow>
     \<not> (0 \<le> i \<and> 0 \<le> j \<and> i < int (length (grid L)) \<and> j < int (length (hd (grid L))))"
  using inBounds_total [of L i j] inBounds_True [of L i j] by auto

lemma tileAt_row:
  "0 \<le> i \<Longrightarrow> i < int (length (grid L)) \<Longrightarrow>
     tileAt L (Some i) j = Inr (js_index (grid L ! nat i) j)"
  by (simp add: tileAt_def js_index_def)

lemma tileAt_no_row:
  "\<not> (0 \<le> i \<and> i < int (length (grid L))) \<Longrightarrow> tileAt L (Some i) j = Inl TypeError"
  by (auto simp add: tileAt_def js_index_def)

text \<open>
  C4. The four predicates read the grid without a bounds check (the code leaves the check
  to the caller). At a cell outside the bounds: when the row index is not a row of the
  grid, each of them raises a TypeError; when the row exists, each of them returns false
  on a rectangular grid, where the column is then outside the row.
\<close>

theorem tile_predicates_out_of_bounds:
  assumes "inBounds L i j = Inr False"
  shows "(\<not> (0 \<le> i \<and> i < rows L) \<longrightarrow>
            isWall L (Some i) (Some j) = Inl TypeError \<and>
            isGoal L (Some i) (Some j) = Inl TypeError \<and>
            isKey L (Some i) (Some j) = Inl TypeError \<and>
            isGate L (Some i) (Some j) = Inl TypeError) \<and>
         (0 \<le> i \<and> i < rows L \<and> rectangular (grid L) \<longrightarrow>
            isWall L (Some i) (Some j) = Inr False \<and>
            isGoal L (Some i) (Some j) = Inr False \<and>
            isKey L (Some i) (Some j) = Inr False \<and>
            isGate L (Some i) (Some j) = Inr False)"
proof (intro conjI impI)
  assume "\<not> (0 \<le> i \<and> i < rows L)"
  then have t: "tileAt L (Some i) (Some j) = Inl TypeError"
    by (simp add: rows_def tileAt_no_row)
  show "isWall L (Some i) (Some j) = Inl TypeError" by (simp add: isWall_def t)
  show "isGoal L (Some i) (Some j) = Inl TypeError" by (simp add: isGoal_def t)
  show "isKey L (Some i) (Some j) = Inl TypeError" by (simp add: isKey_def t)
  show "isGate L (Some i) (Some j) = Inl TypeError" by (simp add: isGate_def t)
next
  assume a: "0 \<le> i \<and> i < rows L \<and> rectangular (grid L)"
  then have "nat i < length (grid L)" by (auto simp: rows_def)
  then have row: "grid L ! nat i \<in> set (grid L)" by (rule nth_mem)
  with a have len: "length (grid L ! nat i) = length (hd (grid L))"
    by (simp add: rectangular_def)
  from assms a have "\<not> (0 \<le> j \<and> j < int (length (hd (grid L))))"
    by (auto simp: inBounds_False rows_def)
  with len have "js_index (grid L ! nat i) (Some j) = None"
    by (auto simp: js_index_def)
  with a have t: "tileAt L (Some i) (Some j) = Inr None"
    by (simp add: tileAt_row rows_def)
  show "isWall L (Some i) (Some j) = Inr False" by (simp add: isWall_def t)
  show "isGoal L (Some i) (Some j) = Inr False" by (simp add: isGoal_def t)
  show "isKey L (Some i) (Some j) = Inr False" by (simp add: isKey_def t)
  show "isGate L (Some i) (Some j) = Inr False" by (simp add: isGate_def t)
qed

theorem tile_predicates_out_of_bounds_witness:
  "inBounds \<lparr>grid = [[0, 1]], lts = 32, start = None\<rparr> 0 2 = Inr False \<and>
   isWall \<lparr>grid = [[0, 1]], lts = 32, start = None\<rparr> (Some 0) (Some 2) = Inr False \<and>
   isGoal \<lparr>grid = [[0, 1]], lts = 32, start = None\<rparr> (Some 0) (Some 2) = Inr False \<and>
   isKey \<lparr>grid = [[0, 1]], lts = 32, start = None\<rparr> (Some 0) (Some 2) = Inr False \<and>
   isGate \<lparr>grid = [[0, 1]], lts = 32, start = None\<rparr> (Some 0) (Some 2) = Inr False \<and>
   inBounds \<lparr>grid = [[0, 1]], lts = 32, start = None\<rparr> 1 0 = Inr False \<and>
   isWall \<lparr>grid = [[0, 1]], lts = 32, start = None\<rparr> (Some 1) (Some 0) = Inl TypeError \<and>
   isGoal \<lparr>grid = [[0, 1]], lts = 32, start = None\<rparr> (Some 1) (Some 0) = Inl TypeError \<and>
   isKey \<lparr>grid = [[0, 1]], lts = 32, start = None\<rparr> (Some 1) (Some 0) = Inl TypeError \<and>
   isGate \<lparr>grid = [[0, 1]], lts = 32, start = None\<rparr> (Some 1) (Some 0) = Inl TypeError"
proof -
  let ?L = "\<lparr>grid = [[0, 1]], lts = 32, start = None\<rparr>"
  have h1: "inBounds ?L 0 2 = Inr False"
    by (simp add: inBounds_def rows_def cols_def)
  have h2: "inBounds ?L 1 0 = Inr False"
    by (simp add: inBounds_def rows_def cols_def)
  have a1: "0 \<le> (0::int) \<and> 0 < rows ?L \<and> rectangular (grid ?L)"
    by (simp add: rows_def rectangular_def)
  have a2: "\<not> (0 \<le> (1::int) \<and> 1 < rows ?L)"
    by (simp add: rows_def)
  from tile_predicates_out_of_bounds [OF h1] a1 tile_predicates_out_of_bounds [OF h2] a2 h1 h2
  show ?thesis by blast
qed

text \<open>
  The claim as the specification words it (false, and no error, outside the bounds)
  fails below the last row: the row read is \<open>undefined\<close> and reading its column raises.
\<close>

theorem tile_predicates_raise_counterexample:
  "inBounds \<lparr>grid = [[0]], lts = 32, start = None\<rparr> 1 0 = Inr False \<and>
   isWall \<lparr>grid = [[0]], lts = 32, start = None\<rparr> (Some 1) (Some 0) = Inl TypeError \<and>
   isGoal \<lparr>grid = [[0]], lts = 32, start = None\<rparr> (Some 1) (Some 0) = Inl TypeError \<and>
   isKey \<lparr>grid = [[0]], lts = 32, start = None\<rparr> (Some 1) (Some 0) = Inl TypeError \<and>
   isGate \<lparr>grid = [[0]], lts = 32, start = None\<rparr> (Some 1) (Some 0) = Inl TypeError"
  by (simp add: inBounds_def rows_def cols_def isWall_def isGoal_def isKey_def isGate_def
        tileAt_def js_index_def)

section \<open>Finding the start and constructing a level\<close>

lemma find_in_row_hits:
  "i < length (grid L) \<Longrightarrow>
     find_in_row L i j = Inr (first_of (row_hits (grid L) i j (length (hd (grid L)))))"
proof (induction L i j rule: find_in_row.induct)
  case (1 L i j)
  from "1.prems" obtain row0 rest where g: "grid L = row0 # rest"
    by (cases "grid L") auto
  show ?case
  proof (cases "j < length row0")
    case False
    then show ?thesis using g "1.prems"
      by (subst find_in_row.simps) (simp add: cols_def row_hits_def first_of_def)
  next
    case True
    note lt = this
    have upt: "[j..<length row0] = j # [Suc j..<length row0]"
      using lt by (simp add: upt_conv_Cons)
    show ?thesis
    proof (cases "js_index (grid L ! i) (Some (int j)) = Some 2")
      case True
      then show ?thesis using g "1.prems" lt upt
        by (subst find_in_row.simps)
           (auto simp: cols_def row_hits_def first_of_def js_index_def split: if_splits)
    next
      case False
      have ih: "find_in_row L i (Suc j) =
                  Inr (first_of (row_hits (grid L) i (Suc j) (length (hd (grid L)))))"
        using "1.IH" [of "int (length row0)" "grid L ! i"] g lt False "1.prems"
        by (simp add: cols_def js_index_def)
      show ?thesis using g "1.prems" lt upt False ih
        by (subst find_in_row.simps)
           (auto simp: cols_def row_hits_def first_of_def js_index_def split: if_splits)
    qed
  qed
qed

lemma first_of_append:
  "first_of (xs @ ys) = (case first_of xs of None \<Rightarrow> first_of ys | Some x \<Rightarrow> Some x)"
  by (cases xs) (simp_all add: first_of_def)

lemma find_from_row_hits:
  "find_from_row L i =
     Inr (first_of (concat (map (\<lambda>k. row_hits (grid L) k 0 (length (hd (grid L))))
                                 [i..<length (grid L)])))"
proof (induction L i rule: find_from_row.induct)
  case (1 L i)
  show ?case
  proof (cases "i < length (grid L)")
    case False
    then show ?thesis
      by (subst find_from_row.simps) (simp add: rows_def first_of_def)
  next
    case True
    have upt: "[i..<length (grid L)] = i # [Suc i..<length (grid L)]"
      using True by (simp add: upt_conv_Cons)
    have row: "find_in_row L i 0 = Inr (first_of (row_hits (grid L) i 0 (length (hd (grid L)))))"
      using True by (rule find_in_row_hits)
    show ?thesis
    proof (cases "first_of (row_hits (grid L) i 0 (length (hd (grid L))))")
      case None
      with "1.IH" [of None] True row show ?thesis
        by (subst find_from_row.simps) (simp add: rows_def upt first_of_append)
    next
      case (Some s)
      with True row show ?thesis
        by (subst find_from_row.simps) (simp add: rows_def upt first_of_append)
    qed
  qed
qed

lemma findStart_total: "\<exists>s. findStart L = Inr s"
  by (simp add: findStart_def find_from_row_hits)





lemma Level_new_eq:
  "findStart \<lparr>grid = g, lts = t, start = None\<rparr> = Inr s \<Longrightarrow>
   Level_new g t =
     Inr \<lparr>grid = (case s of None \<Rightarrow> g | Some (a, b) \<Rightarrow> g[nat a := (g ! nat a)[nat b := 0]]),
          lts = t, start = s\<rparr>"
  by (auto simp: Level_new_def set_tile_def split: option.splits)


text \<open>
  C5. The constructor validates nothing: for every matrix, well-formed or not, it returns
  a level, whose \<open>start\<close> is what \<open>findStart\<close> found and whose grid is the matrix with
  that one cell set to floor.
\<close>

theorem Level_new_never_fails:
  "\<exists>s. findStart \<lparr>grid = g, lts = t, start = None\<rparr> = Inr s \<and>
       Level_new g t =
         Inr \<lparr>grid = (case s of None \<Rightarrow> g | Some (a, b) \<Rightarrow> g[nat a := (g ! nat a)[nat b := 0]]),
              lts = t, start = s\<rparr>"
proof -
  obtain s where s: "findStart \<lparr>grid = g, lts = t, start = None\<rparr> = Inr s"
    using findStart_total by blast
  from s Level_new_eq [OF s] show ?thesis by blast
qed

text \<open>
  Three malformed matrices (two rows of different length, a code that is no tile code, two
  Start codes), each accepted by the constructor.
\<close>

theorem Level_new_accepts_malformed_counterexample:
  "\<not> valid_level_data [[0], [0, 0]] \<and>
   Level_new [[0], [0, 0]] 32 = Inr \<lparr>grid = [[0], [0, 0]], lts = 32, start = None\<rparr> \<and>
   \<not> valid_level_data [[7]] \<and>
   Level_new [[7]] 32 = Inr \<lparr>grid = [[7]], lts = 32, start = None\<rparr> \<and>
   \<not> valid_level_data [[2, 2]] \<and>
   Level_new [[2, 2]] 32 = Inr \<lparr>grid = [[0, 2]], lts = 32, start = Some (0, 0)\<rparr>"
proof -
  have "\<not> valid_level_data [[0], [0, 0]]"
    by (simp add: valid_level_data_def rectangular_def)
  moreover have "\<not> valid_level_data [[7]]"
    by (simp add: valid_level_data_def)
  moreover have "\<not> valid_level_data [[2, 2]]"
    by (simp add: valid_level_data_def start_cells_def)
  moreover have "Level_new [[0], [0, 0]] 32 = Inr \<lparr>grid = [[0], [0, 0]], lts = 32, start = None\<rparr>"
    by (simp add: Level_new_def findStart_def find_from_row.simps find_in_row.simps
          rows_def cols_def js_index_def set_tile_def)
  moreover have "Level_new [[7]] 32 = Inr \<lparr>grid = [[7]], lts = 32, start = None\<rparr>"
    by (simp add: Level_new_def findStart_def find_from_row.simps find_in_row.simps
          rows_def cols_def js_index_def set_tile_def)
  moreover have "Level_new [[2, 2]] 32 = Inr \<lparr>grid = [[0, 2]], lts = 32, start = Some (0, 0)\<rparr>"
    by (simp add: Level_new_def findStart_def find_from_row.simps find_in_row.simps
          rows_def cols_def js_index_def set_tile_def)
  ultimately show ?thesis by blast
qed



section \<open>Facts of the examples\<close>

lemma exact_ops:
  "n_of_int exact_arith = real_of_int" "n_add exact_arith = (+)" "n_sub exact_arith = (-)"
  "n_mul exact_arith = (*)" "n_div exact_arith = (/)" "n_sqrt exact_arith = sqrt"
  "n_ge exact_arith = (\<ge>)" "n_eq exact_arith = (=)"
  by (simp_all add: exact_arith_def)

lemma example_idle_fields:
  "r example_idle = Some 0" "c example_idle = Some 0" "\<not> moving example_idle"
  "keysCollected example_idle = 0"
  by (simp_all add: example_idle_def)

lemma example_moving: "moving example_transit"
  by (simp add: example_transit_def)

lemma example_idle_built: "setCell exact_arith 0 0 (Player_new exact_arith 32) = example_idle"
  by (simp add: setCell_def Player_new_def example_idle_def exact_ops to_number_def Let_def)

lemma example_tryMove:
  "tryMove \<lparr>grid = [[0, v]], lts = 32, start = None\<rparr> 0 1 example_idle =
     (if v = 1 then Inr (False, example_idle\<lparr>dirR := 0, dirC := 1\<rparr>)
      else if v = 5 then Inr (False, example_idle\<lparr>dirR := 0, dirC := 1\<rparr>)
      else Inr (True, example_transit))"
  by (simp add: tryMove_def canMoveTo_def inBounds_def rows_def cols_def isWall_def isGate_def
        tileAt_def js_index_def example_transit_def example_idle_def Let_def to_number_def)

section \<open>Entering cells and resolving arrivals\<close>

lemma canMoveTo_total: "\<exists>b. canMoveTo L p nr nc = Inr b"
proof (cases "inBounds L nr nc = Inr True")
  case True
  then have "0 \<le> nr" "nr < int (length (grid L))" by (simp_all add: inBounds_True)
  then have "tileAt L (Some nr) (Some nc) = Inr (js_index (grid L ! nat nr) (Some nc))"
    by (rule tileAt_row)
  with True show ?thesis by (auto simp add: canMoveTo_def isWall_def isGate_def)
next
  case False
  with inBounds_total [of L nr nc] have "inBounds L nr nc = Inr False" by auto
  then show ?thesis by (auto simp add: canMoveTo_def)
qed

lemma canMoveTo_keys:
  "keysCollected q = keysCollected p \<Longrightarrow> canMoveTo L q nr nc = canMoveTo L p nr nc"
  by (auto simp add: canMoveTo_def split: sum.splits)

lemma tileAt_Some:
  "tileAt L a b = Inr (Some v) \<longleftrightarrow>
     (\<exists>i j. a = Some i \<and> b = Some j \<and> 0 \<le> i \<and> i < int (length (grid L)) \<and>
            0 \<le> j \<and> j < int (length (grid L ! nat i)) \<and> grid L ! nat i ! nat j = v)"
  by (auto simp: tileAt_def js_index_def split: option.splits if_splits)

lemma tileAt_set_tile_same:
  "tileAt L (Some i) (Some j) = Inr (Some v) \<Longrightarrow>
     tileAt (set_tile L i j w) (Some i) (Some j) = Inr (Some w)"
  by (auto simp: tileAt_Some set_tile_def)

lemma handleArrival_raise:
  "tileAt L (r p) (c p) = Inl e \<Longrightarrow> handleArrival L p = Inl e"
  by (simp add: handleArrival_def isKey_def)

lemma handleArrival_key:
  assumes "tileAt L (r p) (c p) = Inr (Some 4)"
  shows "handleArrival L p =
           Inr (set_tile L (to_number (r p)) (to_number (c p)) 0,
                p\<lparr>keysCollected := keysCollected p + 1, arrivedThisFrame := False\<rparr>)"
proof -
  from assms obtain i j where ij: "r p = Some i" "c p = Some j"
    by (auto simp: tileAt_Some)
  with assms have "tileAt (set_tile L i j 0) (Some i) (Some j) = Inr (Some 0)"
    by (simp add: tileAt_set_tile_same)
  with assms ij show ?thesis
    by (simp add: handleArrival_def isKey_def isGate_def to_number_def)
qed

lemma handleArrival_gate:
  assumes "tileAt L (r p) (c p) = Inr (Some 5)"
  shows "handleArrival L p =
           Inr (set_tile L (to_number (r p)) (to_number (c p)) 0,
                p\<lparr>keysCollected := max 0 (keysCollected p - 1), arrivedThisFrame := False\<rparr>)"
  using assms by (simp add: handleArrival_def isKey_def isGate_def)

lemma handleArrival_other:
  assumes "tileAt L (r p) (c p) = Inr v" "v \<noteq> Some 4" "v \<noteq> Some 5"
  shows "handleArrival L p = Inr (L, p\<lparr>arrivedThisFrame := False\<rparr>)"
  using assms by (simp add: handleArrival_def isKey_def isGate_def)

lemma handleArrival_twice:
  "(case handleArrival L p of Inl e \<Rightarrow> Inl e | Inr (L', p') \<Rightarrow> handleArrival L' p') =
     handleArrival L p"
proof (cases "tileAt L (r p) (c p)")
  case (Inl e)
  then show ?thesis by (simp add: handleArrival_raise)
next
  case (Inr v)
  consider "v = Some 4" | "v = Some 5" | "v \<noteq> Some 4" "v \<noteq> Some 5" by blast
  then show ?thesis
  proof cases
    case 1
    with Inr have t: "tileAt L (r p) (c p) = Inr (Some 4)" by simp
    then obtain i j where ij: "r p = Some i" "c p = Some j"
      by (auto simp: tileAt_Some)
    let ?L' = "set_tile L (to_number (r p)) (to_number (c p)) 0"
    let ?p' = "p\<lparr>keysCollected := keysCollected p + 1, arrivedThisFrame := False\<rparr>"
    have "tileAt ?L' (r ?p') (c ?p') = Inr (Some 0)"
      using t ij by (simp add: to_number_def tileAt_set_tile_same)
    then have "handleArrival ?L' ?p' = Inr (?L', ?p'\<lparr>arrivedThisFrame := False\<rparr>)"
      by (rule handleArrival_other) simp_all
    then show ?thesis by (simp add: handleArrival_key [OF t])
  next
    case 2
    with Inr have t: "tileAt L (r p) (c p) = Inr (Some 5)" by simp
    then obtain i j where ij: "r p = Some i" "c p = Some j"
      by (auto simp: tileAt_Some)
    let ?L' = "set_tile L (to_number (r p)) (to_number (c p)) 0"
    let ?p' = "p\<lparr>keysCollected := max 0 (keysCollected p - 1), arrivedThisFrame := False\<rparr>"
    have "tileAt ?L' (r ?p') (c ?p') = Inr (Some 0)"
      using t ij by (simp add: to_number_def tileAt_set_tile_same)
    then have "handleArrival ?L' ?p' = Inr (?L', ?p'\<lparr>arrivedThisFrame := False\<rparr>)"
      by (rule handleArrival_other) simp_all
    then show ?thesis by (simp add: handleArrival_gate [OF t])
  next
    case 3
    let ?p' = "p\<lparr>arrivedThisFrame := False\<rparr>"
    have "tileAt L (r ?p') (c ?p') = Inr v" using Inr by simp
    then have "handleArrival L ?p' = Inr (L, ?p'\<lparr>arrivedThisFrame := False\<rparr>)"
      using 3 by (rule handleArrival_other)
    then show ?thesis by (simp add: handleArrival_other [OF Inr 3])
  qed
qed

lemma handleArrival_keys_nonneg:
  "0 \<le> keysCollected p \<Longrightarrow> handleArrival L p = Inr (L', p') \<Longrightarrow> 0 \<le> keysCollected p'"
proof (cases "tileAt L (r p) (c p)")
  case (Inl e)
  assume "handleArrival L p = Inr (L', p')"
  with Inl show ?thesis by (simp add: handleArrival_raise)
next
  case (Inr v)
  assume k: "0 \<le> keysCollected p" and h: "handleArrival L p = Inr (L', p')"
  consider "v = Some 4" | "v = Some 5" | "v \<noteq> Some 4" "v \<noteq> Some 5" by blast
  then show ?thesis
  proof cases
    case 1
    with Inr h k show ?thesis by (auto simp: handleArrival_key)
  next
    case 2
    with Inr h k show ?thesis by (auto simp: handleArrival_gate)
  next
    case 3
    from handleArrival_other [OF Inr 3] h k show ?thesis by auto
  qed
qed

lemma handleArrival_clears_flag:
  "handleArrival L p = Inr (L', p') \<Longrightarrow> \<not> arrivedThisFrame p'"
  by (auto simp: handleArrival_def Let_def split: sum.splits if_splits)

text \<open>
  C1. The gate rule. A Gate cell is a cell inside the bounds of the grid whose tile is
  the gate. With no key the move into it is refused by \<open>canMoveTo\<close>. With at least
  one key it is allowed, and for a player that has arrived on the cell with that key
  count \<open>handleArrival\<close> returns, leaves floor on the cell and one key less.
\<close>

theorem gate_rule:
  assumes "inBounds L nr nc = Inr True" and "isGate L (Some nr) (Some nc) = Inr True"
  shows "(keysCollected p = 0 \<longrightarrow> canMoveTo L p nr nc = Inr False) \<and>
         (1 \<le> keysCollected p \<longrightarrow>
            canMoveTo L p nr nc = Inr True \<and>
            (\<forall>q :: 'n player. r q = Some nr \<and> c q = Some nc \<and> keysCollected q = keysCollected p \<longrightarrow>
               (\<exists>L' q'. handleArrival L q = Inr (L', q') \<and>
                         tileAt L' (Some nr) (Some nc) = Inr (Some 0) \<and>
                         keysCollected q' = keysCollected p - 1)))"
proof -
  from assms(2) have t: "tileAt L (Some nr) (Some nc) = Inr (Some 5)"
    by (auto simp: isGate_def split: sum.splits)
  then have w: "isWall L (Some nr) (Some nc) = Inr False"
    by (simp add: isWall_def)
  have locked: "canMoveTo L p nr nc = Inr False" if "keysCollected p = 0"
    using that assms w by (simp add: canMoveTo_def)
  have "open": "canMoveTo L p nr nc = Inr True" if "1 \<le> keysCollected p"
    using that assms w by (simp add: canMoveTo_def)
  have arrive: "\<exists>L' q'. handleArrival L q = Inr (L', q') \<and>
                  tileAt L' (Some nr) (Some nc) = Inr (Some 0) \<and>
                  keysCollected q' = keysCollected p - 1"
    if k: "1 \<le> keysCollected p"
      and q: "r q = Some nr \<and> c q = Some nc \<and> keysCollected q = keysCollected p"
    for q :: "'n player"
  proof -
    from t q have tq: "tileAt L (r q) (c q) = Inr (Some 5)" by simp
    have "tileAt (set_tile L nr nc 0) (Some nr) (Some nc) = Inr (Some 0)"
      using t by (rule tileAt_set_tile_same)
    with handleArrival_gate [OF tq] q k show ?thesis
      by (simp add: to_number_def)
  qed
  show ?thesis
  proof (intro conjI impI allI)
    assume "keysCollected p = 0"
    then show "canMoveTo L p nr nc = Inr False" by (rule locked)
  next
    assume "1 \<le> keysCollected p"
    then show "canMoveTo L p nr nc = Inr True" by (rule "open")
  next
    fix q :: "'n player"
    assume "1 \<le> keysCollected p"
      and "r q = Some nr \<and> c q = Some nc \<and> keysCollected q = keysCollected p"
    then show "\<exists>L' q'. handleArrival L q = Inr (L', q') \<and>
                  tileAt L' (Some nr) (Some nc) = Inr (Some 0) \<and>
                  keysCollected q' = keysCollected p - 1"
      by (rule arrive)
  qed
qed

theorem gate_rule_witness:
  "inBounds \<lparr>grid = [[0, 5]], lts = 32, start = None\<rparr> 0 1 = Inr True \<and>
   isGate \<lparr>grid = [[0, 5]], lts = 32, start = None\<rparr> (Some 0) (Some 1) = Inr True \<and>
   canMoveTo \<lparr>grid = [[0, 5]], lts = 32, start = None\<rparr> example_idle 0 1 = Inr False \<and>
   canMoveTo \<lparr>grid = [[0, 5]], lts = 32, start = None\<rparr>
     (example_idle\<lparr>keysCollected := 2\<rparr>) 0 1 = Inr True \<and>
   (\<exists>L' q'. handleArrival \<lparr>grid = [[0, 5]], lts = 32, start = None\<rparr>
               (example_idle\<lparr>r := Some 0, c := Some 1, keysCollected := 2\<rparr>) = Inr (L', q') \<and>
             tileAt L' (Some 0) (Some 1) = Inr (Some 0) \<and> keysCollected q' = 1)"
proof -
  let ?L = "\<lparr>grid = [[0, 5]], lts = 32, start = None\<rparr>"
  have h1: "inBounds ?L 0 1 = Inr True"
    by (simp add: inBounds_def rows_def cols_def)
  have h2: "isGate ?L (Some 0) (Some 1) = Inr True"
    by (simp add: isGate_def tileAt_def js_index_def)
  have k0: "keysCollected example_idle = 0"
    by (simp add: example_idle_def)
  have k2: "1 \<le> keysCollected (example_idle\<lparr>keysCollected := 2\<rparr>)"
           "keysCollected (example_idle\<lparr>keysCollected := 2\<rparr>) - 1 = 1"
    by simp_all
  let ?q = "example_idle\<lparr>r := Some 0, c := Some 1, keysCollected := 2\<rparr>"
  have q: "r ?q = Some 0 \<and> c ?q = Some 1 \<and>
           keysCollected ?q = keysCollected (example_idle\<lparr>keysCollected := 2\<rparr>)"
    by simp
  note g0 = gate_rule [OF h1 h2, of example_idle]
  note g2 = gate_rule [OF h1 h2, of "example_idle\<lparr>keysCollected := 2\<rparr>"]
  from g0 [THEN conjunct1] k0
  have a: "canMoveTo ?L example_idle 0 1 = Inr False" by (rule mp)
  from g2 [THEN conjunct2] k2(1)
  have bc: "canMoveTo ?L (example_idle\<lparr>keysCollected := 2\<rparr>) 0 1 = Inr True \<and>
            (\<forall>q :: real player. r q = Some 0 \<and> c q = Some 1 \<and>
               keysCollected q = keysCollected (example_idle\<lparr>keysCollected := 2\<rparr>) \<longrightarrow>
               (\<exists>L' q'. handleArrival ?L q = Inr (L', q') \<and>
                         tileAt L' (Some 0) (Some 1) = Inr (Some 0) \<and>
                         keysCollected q' = keysCollected (example_idle\<lparr>keysCollected := 2\<rparr>) - 1))"
    by (rule mp)
  from bc [THEN conjunct2, THEN spec, of ?q] q
  have "\<exists>L' q'. handleArrival ?L ?q = Inr (L', q') \<and>
                         tileAt L' (Some 0) (Some 1) = Inr (Some 0) \<and>
                         keysCollected q' = keysCollected (example_idle\<lparr>keysCollected := 2\<rparr>) - 1"
    by (rule mp)
  then have d: "\<exists>L' q'. handleArrival ?L ?q = Inr (L', q') \<and>
                         tileAt L' (Some 0) (Some 1) = Inr (Some 0) \<and> keysCollected q' = 1"
    unfolding k2(2) .
  from h1 h2 a bc [THEN conjunct1] d show ?thesis by (intro conjI)
qed

text \<open>
  C7. Resolving the same arrival twice: a second \<open>handleArrival\<close> right after the first
  returns the level and the player the first one returned (in particular the same key
  count and the same grid), and an error of the first stays that error. The first call
  also leaves \<open>arrivedThisFrame\<close> false, the flag on which the orchestrator calls it.
\<close>

theorem handleArrival_idempotent:
  "(case handleArrival L p of Inl e \<Rightarrow> Inl e | Inr (L', p') \<Rightarrow> handleArrival L' p') =
     handleArrival L p \<and>
   (case handleArrival L p of Inl e \<Rightarrow> True | Inr (L', p') \<Rightarrow> arrivedThisFrame p' = False)"
proof
  show "(case handleArrival L p of Inl e \<Rightarrow> Inl e | Inr (L', p') \<Rightarrow> handleArrival L' p') =
          handleArrival L p"
    by (rule handleArrival_twice)
  have "\<not> arrivedThisFrame p'" if "handleArrival L p = Inr (L', p')" for L' p'
    using that by (rule handleArrival_clears_flag)
  then show "case handleArrival L p of Inl e \<Rightarrow> True | Inr (L', p') \<Rightarrow> arrivedThisFrame p' = False"
    by (simp split: sum.splits)
qed

section \<open>Requesting a move\<close>

lemma tryContinue_idle:
  assumes "\<not> moving q" "dirR q \<noteq> 0 \<or> dirC q \<noteq> 0"
  shows "tryContinue L q =
           (case canMoveTo L q (to_number (r q) + dirR q) (to_number (c q) + dirC q) of
              Inl e \<Rightarrow> Inl e
            | Inr ok \<Rightarrow>
                if ok then Inr (True, q\<lparr>targetR := Some (to_number (r q) + dirR q),
                                       targetC := Some (to_number (c q) + dirC q), moving := True\<rparr>)
                else Inr (False, q))"
  using assms by (auto simp: tryContinue_def Let_def split: sum.splits)

lemma tryMove_total_dir:
  "\<exists>b p'. tryMove L dr dc p = Inr (b, p') \<and> dirR p' = dr \<and> dirC p' = dc"
proof -
  obtain b where "canMoveTo L (p\<lparr>dirR := dr, dirC := dc\<rparr>)
                    (to_number (r p) + dr) (to_number (c p) + dc) = Inr b"
    using canMoveTo_total by blast
  then show ?thesis by (auto simp add: tryMove_def Let_def)
qed

text \<open>
  C8. A refused move changes nothing but the stored direction: for a player that is not
  moving, when \<open>canMoveTo\<close> refuses the neighbour cell, \<open>tryMove\<close> returns false and
  the player with \<open>dirR\<close> and \<open>dirC\<close> set; cell, pixel position, \<open>moving\<close> and target
  are as before.
\<close>

theorem tryMove_rejected_frame:
  assumes "\<not> moving p"
    and "canMoveTo L p (to_number (r p) + dr) (to_number (c p) + dc) = Inr False"
  shows "tryMove L dr dc p = Inr (False, p\<lparr>dirR := dr, dirC := dc\<rparr>)"
proof -
  have "canMoveTo L (p\<lparr>dirR := dr, dirC := dc\<rparr>) (to_number (r p) + dr) (to_number (c p) + dc) =
        canMoveTo L p (to_number (r p) + dr) (to_number (c p) + dc)"
    by (rule canMoveTo_keys) simp
  with assms show ?thesis by (simp add: tryMove_def)
qed

theorem tryMove_rejected_frame_witness:
  "\<not> moving example_idle \<and>
   canMoveTo \<lparr>grid = [[0, 1]], lts = 32, start = None\<rparr> example_idle 0 1 = Inr False \<and>
   tryMove \<lparr>grid = [[0, 1]], lts = 32, start = None\<rparr> 0 1 example_idle =
     Inr (False, example_idle\<lparr>dirR := 0, dirC := 1\<rparr>)"
proof -
  let ?L = "\<lparr>grid = [[0, 1]], lts = 32, start = None\<rparr>"
  have h: "canMoveTo ?L example_idle (to_number (r example_idle) + 0) (to_number (c example_idle) + 1) = Inr False"
    by (simp add: canMoveTo_def inBounds_def rows_def cols_def isWall_def tileAt_def js_index_def
          example_idle_fields to_number_def)
  from tryMove_rejected_frame [OF example_idle_fields(3) h] h example_idle_fields(3)
  show ?thesis by (simp add: example_idle_fields to_number_def)
qed

text \<open>
  C9. While a transit is under way, \<open>tryMove\<close> returns true and changes only the stored
  direction: the target of the transit and every other field stay as they are.
\<close>

theorem tryMove_while_moving:
  assumes "moving p"
  shows "tryMove L dr dc p = Inr (True, p\<lparr>dirR := dr, dirC := dc\<rparr>)"
  using assms by (simp add: tryMove_def)

theorem tryMove_while_moving_witness:
  "moving example_transit \<and>
   tryMove \<lparr>grid = [[0, 0]], lts = 32, start = None\<rparr> 1 0 example_transit =
     Inr (True, example_transit\<lparr>dirR := 1, dirC := 0\<rparr>)"
  using tryMove_while_moving [OF example_moving] example_moving by simp

text \<open>
  C10. \<open>tryMove\<close> always returns, and the player it returns has the requested direction
  as \<open>dirR\<close>, \<open>dirC\<close>, whether the move was accepted or refused. A later \<open>tryContinue\<close>
  on a player at rest that still holds this direction (not the zero direction) tests the
  neighbour cell in this direction and starts the transit to it when it may be entered.
\<close>

theorem tryMove_sets_direction:
  "\<exists>b p'. tryMove L dr dc p = Inr (b, p') \<and> dirR p' = dr \<and> dirC p' = dc \<and>
     (\<forall>L2 q. \<not> moving q \<and> dirR q = dirR p' \<and> dirC q = dirC p' \<and> (dr \<noteq> 0 \<or> dc \<noteq> 0) \<longrightarrow>
        tryContinue L2 q =
          (case canMoveTo L2 q (to_number (r q) + dr) (to_number (c q) + dc) of
             Inl e \<Rightarrow> Inl e
           | Inr ok \<Rightarrow>
               if ok then Inr (True, q\<lparr>targetR := Some (to_number (r q) + dr),
                                      targetC := Some (to_number (c q) + dc), moving := True\<rparr>)
               else Inr (False, q)))"
proof -
  obtain b p' where t: "tryMove L dr dc p = Inr (b, p')" "dirR p' = dr" "dirC p' = dc"
    using tryMove_total_dir by blast
  have "tryContinue L2 q =
          (case canMoveTo L2 q (to_number (r q) + dr) (to_number (c q) + dc) of
             Inl e \<Rightarrow> Inl e
           | Inr ok \<Rightarrow>
               if ok then Inr (True, q\<lparr>targetR := Some (to_number (r q) + dr),
                                      targetC := Some (to_number (c q) + dc), moving := True\<rparr>)
               else Inr (False, q))"
    if "\<not> moving q \<and> dirR q = dirR p' \<and> dirC q = dirC p' \<and> (dr \<noteq> 0 \<or> dc \<noteq> 0)" for L2 q
  proof -
    from that t(2,3) have dq: "dirR q = dr" "dirC q = dc" by simp_all
    from that have nm: "\<not> moving q" and nz: "dr \<noteq> 0 \<or> dc \<noteq> 0" by blast+
    from nz have "dirR q \<noteq> 0 \<or> dirC q \<noteq> 0" by (simp only: dq)
    note idle = nm this
    from tryContinue_idle [OF idle, of L2] show ?thesis by (simp only: dq)
  qed
  with t show ?thesis by blast
qed

theorem tryMove_sets_direction_witness:
  "tryMove \<lparr>grid = [[0, 1]], lts = 32, start = None\<rparr> 0 1 example_idle =
     Inr (False, example_idle\<lparr>dirR := 0, dirC := 1\<rparr>) \<and>
   tryContinue \<lparr>grid = [[0, 0]], lts = 32, start = None\<rparr> (example_idle\<lparr>dirR := 0, dirC := 1\<rparr>) =
     Inr (True, example_idle\<lparr>dirR := 0, dirC := 1, targetR := Some 0, targetC := Some 1,
                             moving := True\<rparr>)"
proof -
  let ?L = "\<lparr>grid = [[0, 1]], lts = 32, start = None\<rparr>"
  let ?L2 = "\<lparr>grid = [[0, 0]], lts = 32, start = None\<rparr>"
  let ?q = "example_idle\<lparr>dirR := 0, dirC := 1\<rparr>"
  have m: "tryMove ?L 0 1 example_idle = Inr (False, ?q)"
    by (simp add: tryMove_def canMoveTo_def inBounds_def rows_def cols_def isWall_def tileAt_def
          js_index_def example_idle_fields to_number_def)
  from tryMove_sets_direction [of ?L 0 1 example_idle] m
  have "\<forall>L2 (q :: real player). \<not> moving q \<and> dirR q = dirR ?q \<and> dirC q = dirC ?q \<and> ((0::int) \<noteq> 0 \<or> (1::int) \<noteq> 0) \<longrightarrow>
        tryContinue L2 q =
          (case canMoveTo L2 q (to_number (r q) + 0) (to_number (c q) + 1) of
             Inl e \<Rightarrow> Inl e
           | Inr ok \<Rightarrow>
               if ok then Inr (True, q\<lparr>targetR := Some (to_number (r q) + 0),
                                      targetC := Some (to_number (c q) + 1), moving := True\<rparr>)
               else Inr (False, q))"
    by auto
  then have "tryContinue ?L2 ?q =
          (case canMoveTo ?L2 ?q (to_number (r ?q) + 0) (to_number (c ?q) + 1) of
             Inl e \<Rightarrow> Inl e
           | Inr ok \<Rightarrow>
               if ok then Inr (True, ?q\<lparr>targetR := Some (to_number (r ?q) + 0),
                                      targetC := Some (to_number (c ?q) + 1), moving := True\<rparr>)
               else Inr (False, ?q))"
    using example_idle_fields(3) by simp
  moreover have "canMoveTo ?L2 ?q (to_number (r ?q) + 0) (to_number (c ?q) + 1) = Inr True"
    by (simp add: canMoveTo_def inBounds_def rows_def cols_def isWall_def isGate_def tileAt_def
          js_index_def example_idle_fields to_number_def)
  ultimately have "tryContinue ?L2 ?q =
      Inr (True, ?q\<lparr>targetR := Some (to_number (r ?q) + 0),
                      targetC := Some (to_number (c ?q) + 1), moving := True\<rparr>)"
    by simp
  with m show ?thesis by (simp add: example_idle_fields to_number_def)
qed

section \<open>Advancing a transit\<close>

lemma update_unfold:
  "update fp dt p =
     (if \<not> moving p then p
      else if n_eq fp (remaining fp p) (n_of_int fp 0) then finishMove p
      else if n_ge fp (step_size fp dt p) (remaining fp p)
        then finishMove (p\<lparr>px := targetPx fp p, py := targetPy fp p\<rparr>)
        else p\<lparr>px := n_add fp (px p)
                        (n_mul fp (n_div fp (n_sub fp (targetPx fp p) (px p)) (remaining fp p))
                                  (step_size fp dt p)),
               py := n_add fp (py p)
                        (n_mul fp (n_div fp (n_sub fp (targetPy fp p) (py p)) (remaining fp p))
                                  (step_size fp dt p))\<rparr>)"
  by (simp add: update_def Let_def remaining_def targetPx_def targetPy_def step_size_def)



lemma sqrt_1024: "sqrt 1024 = 32"
  by (rule real_sqrt_unique) simp_all

lemma example_transit_fields:
  "targetPx exact_arith example_transit = 48" "targetPy exact_arith example_transit = 16"
  "px example_transit = 16" "py example_transit = 16"
  "targetR example_transit = Some 0" "targetC example_transit = Some 1"
  "step_size exact_arith 0 example_transit = 0"
  "step_size exact_arith 125 example_transit = 65 / 4"
  "step_size exact_arith 1000 example_transit = 130"
  by (simp_all add: targetPx_def targetPy_def step_size_def example_transit_def example_idle_def
        exact_ops to_number_def)

lemma example_remaining: "remaining exact_arith example_transit = 32"
  by (simp add: remaining_def targetPx_def targetPy_def example_transit_def example_idle_def
        exact_ops to_number_def sqrt_1024)


lemma example_arrival:
  "update exact_arith 1000 example_transit =
     example_transit\<lparr>px := 48, py := 16, r := Some 0, c := Some 1, moving := False,
                      arrivedThisFrame := True\<rparr>"
  by (simp add: update_unfold example_remaining example_moving example_transit_fields
        finishMove_def exact_ops)



section \<open>The key count\<close>

lemma do_call_keys_nonneg:
  "0 \<le> keysCollected p \<Longrightarrow> do_call fp x p = Inr p' \<Longrightarrow> 0 \<le> keysCollected p'"
proof (cases x)
  case (HandleArrival L)
  assume "0 \<le> keysCollected p" "do_call fp x p = Inr p'"
  with HandleArrival show ?thesis
    by (auto split: sum.splits dest: handleArrival_keys_nonneg)
qed (auto simp: setCell_def resetKey_def loadLevel_def tryMove_def tryContinue_def update_def
       finishMove_def Let_def split: sum.splits if_splits option.splits)

lemma run_keys_nonneg:
  "0 \<le> keysCollected p \<Longrightarrow> run fp xs p = Inr p' \<Longrightarrow> 0 \<le> keysCollected p'"
proof (induction xs arbitrary: p)
  case Nil
  then show ?case by simp
next
  case (Cons x xs)
  from Cons.prems obtain p1 where p1: "do_call fp x p = Inr p1" "run fp xs p1 = Inr p'"
    by (auto split: sum.splits)
  from do_call_keys_nonneg [OF Cons.prems(1) p1(1)] have "0 \<le> keysCollected p1" .
  then show ?case using p1(2) by (rule Cons.IH)
qed

text \<open>
  C2. The key count is never negative: in every state that the calls of the orchestrator
  reach from a new player, with any levels and whatever the arithmetic returns,
  \<open>keysCollected\<close> is at least 0, and it is at least 0 again after \<open>handleArrival\<close> on
  any level.
\<close>

theorem keyCount_nonneg:
  assumes "run fp xs (Player_new fp t) = Inr p"
  shows "0 \<le> keysCollected p \<and>
         (case handleArrival L p of Inl e \<Rightarrow> True | Inr (L', p') \<Rightarrow> 0 \<le> keysCollected p')"
proof -
  have "0 \<le> keysCollected (Player_new fp t)" by (simp add: Player_new_def)
  then have k: "0 \<le> keysCollected p" using assms by (rule run_keys_nonneg)
  have "0 \<le> keysCollected p'" if "handleArrival L p = Inr (L', p')" for L' p'
    using k that by (rule handleArrival_keys_nonneg)
  with k show ?thesis by (simp split: sum.splits)
qed

theorem keyCount_nonneg_witness:
  "run exact_arith
     [SetCell 0 0, TryMove \<lparr>grid = [[0, 4]], lts = 32, start = None\<rparr> 0 1, Update 1000,
      HandleArrival \<lparr>grid = [[0, 4]], lts = 32, start = None\<rparr>] (Player_new exact_arith 32) =
     Inr (example_transit\<lparr>px := 48, py := 16, r := Some 0, c := Some 1, moving := False,
                           arrivedThisFrame := False, keysCollected := 1\<rparr>) \<and>
   0 \<le> keysCollected (example_transit\<lparr>px := 48, py := 16, r := Some 0, c := Some 1,
                           moving := False, arrivedThisFrame := False, keysCollected := 1\<rparr>)"
proof -
  let ?L = "\<lparr>grid = [[0, 4]], lts = 32, start = None\<rparr>"
  let ?p = "example_transit\<lparr>px := 48, py := 16, r := Some 0, c := Some 1, moving := False,
                           arrivedThisFrame := False, keysCollected := 1\<rparr>"
  have k: "keysCollected example_transit = 0"
    by (simp add: example_transit_def example_idle_def)
  have h: "handleArrival ?L (example_transit\<lparr>px := 48, py := 16, r := Some 0, c := Some 1,
              moving := False, arrivedThisFrame := True\<rparr>) =
             Inr (set_tile ?L 0 1 0, ?p)"
    by (simp add: handleArrival_def isKey_def isGate_def tileAt_def js_index_def set_tile_def
          to_number_def k)
  have run: "run exact_arith [SetCell 0 0, TryMove ?L 0 1, Update 1000, HandleArrival ?L]
               (Player_new exact_arith 32) = Inr ?p"
    by (simp add: example_idle_built example_tryMove example_arrival h)
  from keyCount_nonneg [OF run, of ?L, THEN conjunct1] run show ?thesis by (intro conjI)
qed

end
